theory Spec2Isabelle
  imports Main "HOL-Library.AList" "HOL-Library.Multiset" "HOL-Library.Word"
begin

section \<open>Data model (types.ts)\<close>

text \<open>
  The string unions of \<^verbatim>\<open>types.ts\<close> are datatypes. Field names carry a prefix where
  two interfaces share a name (\<^verbatim>\<open>id\<close>, \<^verbatim>\<open>type\<close>, \<^verbatim>\<open>content\<close>). An optional field is an
  \<open>option\<close>.

  A JavaScript string is a sequence of 16-bit code units. Text that the code trims,
  measures or concatenates (names, contents, messages) is a \<open>js_string\<close>, the list of its
  code units. An ID is only compared and tested for emptiness; it stays a \<open>string\<close>.
  \<^verbatim>\<open>content: string | object\<close> is a \<open>js_string\<close>.

  A \<^verbatim>\<open>number\<close> that the code only uses as an integer (array index, execution count,
  timestamp in milliseconds) is an \<open>int\<close>, standing for the double of that value; the one
  addition the code performs on such a number is \<open>js_add\<close> below, which rounds as the
  double addition does.
\<close>

type_synonym js_string = "16 word list"

text \<open>The code units of a literal written in ASCII.\<close>

definition ascii :: "string \<Rightarrow> js_string" where
  "ascii s = map (\<lambda>c. of_nat (of_char c)) s"

datatype cell_type = Code | Markdown

datatype cell_status = Idle | Running | Completed | Error

datatype output_type = Stream | DisplayData | ExecuteResult | ErrorOutput

datatype kernel_status = KernelIdle | KernelStarting | KernelBusy | KernelDead

record CellOutput =
  out_id :: string
  out_type :: output_type
  out_content :: js_string
  out_timestamp :: int

record Cell =
  cell_id :: string
  cell_type :: cell_type
  cell_content :: js_string
  cell_output :: "CellOutput list"
  cell_status :: cell_status
  executionCount :: "int option"
  metadata :: "(string \<times> string) list option"

text \<open>
  \<^verbatim>\<open>Notebook\<close> and the store state take the type of an array slot of \<^verbatim>\<open>cells\<close> as a
  parameter. The declared type \<^verbatim>\<open>Cell[]\<close> is \<open>Cell Notebook\<close>; every operation of the store
  is defined on it. \<^verbatim>\<open>reorderCells\<close> alone can store the JavaScript value \<^verbatim>\<open>undefined\<close> in
  a slot, so its result is a \<open>Cell option Notebook\<close>, where \<open>None\<close> is \<^verbatim>\<open>undefined\<close>.
  \<^verbatim>\<open>Date\<close> values are milliseconds.
\<close>

record 'slot Notebook =
  nb_id :: string
  nb_name :: js_string
  cells :: "'slot list"
  createdAt :: int
  updatedAt :: int
  kernelId :: "string option"
  kernelStatus :: kernel_status

record WebSocketMessage =
  msg_type :: output_type
  msg_content :: js_string
  msg_cellId :: string
  msg_timestamp :: int

text \<open>
  \<^verbatim>\<open>Partial<Cell>\<close>: every key may be absent (\<open>None\<close>). A present \<^verbatim>\<open>executionCount\<close> or
  \<^verbatim>\<open>metadata\<close> may itself hold \<^verbatim>\<open>undefined\<close>.
\<close>

record CellPartial =
  p_id :: "string option"
  p_type :: "cell_type option"
  p_content :: "js_string option"
  p_output :: "CellOutput list option"
  p_status :: "cell_status option"
  p_executionCount :: "int option option"
  p_metadata :: "(string \<times> string) list option option"

text \<open>
  The state part of \<^verbatim>\<open>NotebookStore\<close>. \<^verbatim>\<open>webSocketConnections\<close> is a \<^verbatim>\<open>Map\<close>, kept
  as an association list in insertion order; a socket is a handle number.
\<close>

record 'slot NotebookState =
  notebooks :: "'slot Notebook list"
  activeNotebookId :: "string option"
  activeCellId :: "string option"
  webSocketConnections :: "(string \<times> nat) list"
  isLoading :: bool
  error :: "js_string option"

section \<open>JavaScript helpers\<close>

text \<open>\<^verbatim>\<open>v || null\<close> for \<^verbatim>\<open>v: string | undefined\<close>: the empty string is falsy.\<close>

definition or_null :: "string option \<Rightarrow> string option" where
  "or_null v = (case v of None \<Rightarrow> None | Some x \<Rightarrow> if x = [] then None else Some x)"

text \<open>Truthiness of a \<^verbatim>\<open>string | null\<close>.\<close>

definition truthy :: "string option \<Rightarrow> bool" where
  "truthy v = (case v of None \<Rightarrow> False | Some x \<Rightarrow> x \<noteq> [])"

text \<open>\<^verbatim>\<open>v || 0\<close> for \<^verbatim>\<open>v: number | undefined\<close>.\<close>

definition or_zero :: "int option \<Rightarrow> int" where
  "or_zero v = (case v of None \<Rightarrow> 0 | Some n \<Rightarrow> n)"

text \<open>\<^verbatim>\<open>xs[0]?.id\<close>: \<^verbatim>\<open>undefined\<close> on an empty array.\<close>

definition first_cell_id :: "Cell list \<Rightarrow> string option" where
  "first_cell_id cs = (case cs of [] \<Rightarrow> None | c # _ \<Rightarrow> Some (cell_id c))"

definition first_notebook_id :: "Cell Notebook list \<Rightarrow> string option" where
  "first_notebook_id ns = (case ns of [] \<Rightarrow> None | nb # _ \<Rightarrow> Some (nb_id nb))"

text \<open>
  \<^verbatim>\<open>Array.prototype.splice(start, ...)\<close> on an array of length \<open>len\<close>: a negative start
  counts from the end and stops at 0, any other start stops at \<open>len\<close>.
\<close>

definition splice_start :: "int \<Rightarrow> nat \<Rightarrow> nat" where
  "splice_start i len = (if i < 0 then nat (max (int len + i) 0) else min (nat i) len)"

text \<open>
  The code units that \<^verbatim>\<open>String.prototype.trim\<close> strips: the white space of ECMAScript
  (tab, vertical tab, form feed, space, no-break space U+00A0, the byte order mark U+FEFF
  and the other space separators U+1680, U+2000 to U+200A, U+202F, U+205F, U+3000) and
  its line terminators (line feed, carriage return, U+2028, U+2029).
\<close>

definition is_space :: "16 word \<Rightarrow> bool" where
  "is_space c =
     (c \<in> {0x0009, 0x000A, 0x000B, 0x000C, 0x000D, 0x0020, 0x00A0, 0x1680, 0x2028, 0x2029,
            0x202F, 0x205F, 0x3000, 0xFEFF}
      \<or> (0x2000 \<le> c \<and> c \<le> 0x200A))"

definition trim :: "js_string \<Rightarrow> js_string" where
  "trim s = rev (dropWhile is_space (rev (dropWhile is_space s)))"

text \<open>
  Addition of two numbers that hold integers. A double has a mantissa of 53 bits: an
  integer below \<open>2 ^ 53\<close> in magnitude is a double, and beyond that the doubles are
  \<open>double_ulp\<close> apart. \<open>round_double\<close> is the double nearest to an integer, the one with
  the even mantissa when two are equally near, and the sum of two doubles is the exact sum
  rounded so. (No sum of the code comes near the largest double.)
\<close>

definition mantissa_limit :: nat where
  "mantissa_limit = 2 ^ 53"

function double_ulp :: "nat \<Rightarrow> nat" where
  "double_ulp m = (if m < mantissa_limit then 1 else 2 * double_ulp (m div 2))"
  by pat_completeness auto
termination
proof (relation "measure id")
  show "wf (measure id)" by simp
next
  fix m :: nat
  assume "\<not> m < mantissa_limit"
  moreover have "0 < mantissa_limit" by (simp add: mantissa_limit_def)
  ultimately have "0 < m" by simp
  then show "(m div 2, m) \<in> measure id" by simp
qed

declare double_ulp.simps [simp del]

definition round_double :: "int \<Rightarrow> int" where
  "round_double x =
     (let m = nat \<bar>x\<bar>; q = double_ulp m; lo = (m div q) * q; r = m mod q;
          nearest = (if 2 * r < q then lo else if q < 2 * r then lo + q
                     else if even (m div q) then lo else lo + q)
      in if x < 0 then - int nearest else int nearest)"

definition js_add :: "int \<Rightarrow> int \<Rightarrow> int" where
  "js_add a b = round_double (a + b)"

section \<open>The store (notebookStore.ts)\<close>

text \<open>
  Each action is the state after \<^verbatim>\<open>set\<close>. The results of \<^verbatim>\<open>generateId()\<close> and of
  \<^verbatim>\<open>new Date()\<close> are arguments, in the order the source draws them.
\<close>

definition initial_state :: "Cell NotebookState" where
  "initial_state = \<lparr>notebooks = [], activeNotebookId = None, activeCellId = None,
     webSocketConnections = [], isLoading = False, error = None\<rparr>"

definition createDefaultCell :: "string \<Rightarrow> Cell" where
  "createDefaultCell new_id = \<lparr>cell_id = new_id, cell_type = Code, cell_content = [],
     cell_output = [], cell_status = Idle, executionCount = None, metadata = None\<rparr>"

definition createNotebook ::
  "string \<Rightarrow> string \<Rightarrow> int \<Rightarrow> int \<Rightarrow> js_string \<Rightarrow> Cell NotebookState \<Rightarrow> Cell NotebookState" where
  "createNotebook new_nb_id new_cell_id date1 date2 name s =
     (let newNotebook = \<lparr>nb_id = new_nb_id, nb_name = name,
            cells = [createDefaultCell new_cell_id], createdAt = date1, updatedAt = date2,
            kernelId = None, kernelStatus = KernelIdle\<rparr>
      in s\<lparr>notebooks := notebooks s @ [newNotebook],
           activeNotebookId := Some (nb_id newNotebook),
           activeCellId := or_null (first_cell_id (cells newNotebook))\<rparr>)"

definition deleteNotebook :: "string \<Rightarrow> Cell NotebookState \<Rightarrow> Cell NotebookState" where
  "deleteNotebook i s =
     (let newNotebooks = filter (\<lambda>nb. nb_id nb \<noteq> i) (notebooks s);
          newActiveNotebookId =
            (if activeNotebookId s = Some i then or_null (first_notebook_id newNotebooks)
             else activeNotebookId s)
      in s\<lparr>notebooks := newNotebooks,
           activeNotebookId := newActiveNotebookId,
           activeCellId :=
             (if truthy newActiveNotebookId
              then or_null
                (case find (\<lambda>nb. Some (nb_id nb) = newActiveNotebookId) newNotebooks of
                   None \<Rightarrow> None
                 | Some nb \<Rightarrow> first_cell_id (cells nb))
              else None)\<rparr>)"

definition setActiveNotebook :: "string \<Rightarrow> Cell NotebookState \<Rightarrow> Cell NotebookState" where
  "setActiveNotebook i s = s\<lparr>activeNotebookId := Some i\<rparr>"

definition setActiveCell :: "string \<Rightarrow> Cell NotebookState \<Rightarrow> Cell NotebookState" where
  "setActiveCell cellId s = s\<lparr>activeCellId := Some cellId\<rparr>"

text \<open>\<^verbatim>\<open>addCell\<close>: the argument is an \<^verbatim>\<open>Omit<Cell, 'id'>\<close>; its \<open>cell_id\<close> is overwritten.\<close>

definition addCell :: "string \<Rightarrow> int \<Rightarrow> string \<Rightarrow> Cell \<Rightarrow> Cell NotebookState \<Rightarrow> Cell NotebookState" where
  "addCell new_id date notebookId cell s =
     (let newCell = cell\<lparr>cell_id := new_id\<rparr>
      in s\<lparr>notebooks := map (\<lambda>nb. if nb_id nb = notebookId
                then nb\<lparr>cells := cells nb @ [newCell], updatedAt := date\<rparr> else nb)
              (notebooks s)\<rparr>)"

definition deleteCell :: "int \<Rightarrow> string \<Rightarrow> string \<Rightarrow> Cell NotebookState \<Rightarrow> Cell NotebookState" where
  "deleteCell date notebookId cellId s =
     s\<lparr>notebooks := map (\<lambda>nb. if nb_id nb = notebookId
           then nb\<lparr>cells := filter (\<lambda>cell. cell_id cell \<noteq> cellId) (cells nb), updatedAt := date\<rparr>
           else nb)
         (notebooks s)\<rparr>"

text \<open>\<^verbatim>\<open>{ ...cell, ...updates }\<close>: a key of \<^verbatim>\<open>updates\<close> wins where it is present.\<close>

definition merge_cell :: "Cell \<Rightarrow> CellPartial \<Rightarrow> Cell" where
  "merge_cell cell updates =
     \<lparr>cell_id = (case p_id updates of None \<Rightarrow> cell_id cell | Some v \<Rightarrow> v),
      cell_type = (case p_type updates of None \<Rightarrow> cell_type cell | Some v \<Rightarrow> v),
      cell_content = (case p_content updates of None \<Rightarrow> cell_content cell | Some v \<Rightarrow> v),
      cell_output = (case p_output updates of None \<Rightarrow> cell_output cell | Some v \<Rightarrow> v),
      cell_status = (case p_status updates of None \<Rightarrow> cell_status cell | Some v \<Rightarrow> v),
      executionCount = (case p_executionCount updates of None \<Rightarrow> executionCount cell | Some v \<Rightarrow> v),
      metadata = (case p_metadata updates of None \<Rightarrow> metadata cell | Some v \<Rightarrow> v)\<rparr>"

definition no_updates :: CellPartial where
  "no_updates = \<lparr>p_id = None, p_type = None, p_content = None, p_output = None,
     p_status = None, p_executionCount = None, p_metadata = None\<rparr>"

definition updateCell ::
  "int \<Rightarrow> string \<Rightarrow> string \<Rightarrow> CellPartial \<Rightarrow> Cell NotebookState \<Rightarrow> Cell NotebookState" where
  "updateCell date notebookId cellId updates s =
     s\<lparr>notebooks := map (\<lambda>nb. if nb_id nb = notebookId
           then nb\<lparr>cells := map (\<lambda>cell. if cell_id cell = cellId then merge_cell cell updates else cell)
                               (cells nb),
                   updatedAt := date\<rparr>
           else nb)
         (notebooks s)\<rparr>"

text \<open>
  The body of the function expression inside \<^verbatim>\<open>reorderCells\<close>: copy the array, splice one
  element out at \<^verbatim>\<open>fromIndex\<close>, splice \<^verbatim>\<open>removed\<close> in at \<^verbatim>\<open>toIndex\<close>. When the first
  splice deletes nothing (its start is the length of the array), \<^verbatim>\<open>removed\<close> is
  \<^verbatim>\<open>undefined\<close>, and that is what the second splice inserts.
\<close>

definition reorder_array :: "int \<Rightarrow> int \<Rightarrow> 'a list \<Rightarrow> 'a option list" where
  "reorder_array fromIndex toIndex xs =
     (let start1 = splice_start fromIndex (length xs);
          removed = (if start1 < length xs then Some (xs ! start1) else None);
          rest = take start1 xs @ drop (Suc start1) xs;
          start2 = splice_start toIndex (length rest)
      in map Some (take start2 rest) @ [removed] @ map Some (drop start2 rest))"

definition slots_of_notebook :: "'a Notebook \<Rightarrow> 'a option Notebook" where
  "slots_of_notebook nb = \<lparr>nb_id = nb_id nb, nb_name = nb_name nb, cells = map Some (cells nb),
     createdAt = createdAt nb, updatedAt = updatedAt nb, kernelId = kernelId nb,
     kernelStatus = kernelStatus nb\<rparr>"

definition slots_of_state :: "'a NotebookState \<Rightarrow> 'a option NotebookState" where
  "slots_of_state s = \<lparr>notebooks = map slots_of_notebook (notebooks s),
     activeNotebookId = activeNotebookId s, activeCellId = activeCellId s,
     webSocketConnections = webSocketConnections s, isLoading = isLoading s, error = error s\<rparr>"

definition reorderCells ::
  "int \<Rightarrow> string \<Rightarrow> int \<Rightarrow> int \<Rightarrow> Cell NotebookState \<Rightarrow> Cell option NotebookState" where
  "reorderCells date notebookId fromIndex toIndex s =
     \<lparr>notebooks = map (\<lambda>nb. if nb_id nb = notebookId
          then \<lparr>nb_id = nb_id nb, nb_name = nb_name nb,
                cells = reorder_array fromIndex toIndex (cells nb),
                createdAt = createdAt nb, updatedAt = date, kernelId = kernelId nb,
                kernelStatus = kernelStatus nb\<rparr>
          else slots_of_notebook nb)
        (notebooks s),
      activeNotebookId = activeNotebookId s, activeCellId = activeCellId s,
      webSocketConnections = webSocketConnections s, isLoading = isLoading s, error = error s\<rparr>"

definition setWebSocketConnection :: "string \<Rightarrow> nat \<Rightarrow> Cell NotebookState \<Rightarrow> Cell NotebookState" where
  "setWebSocketConnection notebookId ws s =
     s\<lparr>webSocketConnections := AList.update notebookId ws (webSocketConnections s)\<rparr>"

definition removeWebSocketConnection :: "string \<Rightarrow> Cell NotebookState \<Rightarrow> Cell NotebookState" where
  "removeWebSocketConnection notebookId s =
     s\<lparr>webSocketConnections := AList.delete notebookId (webSocketConnections s)\<rparr>"

definition updateCellOutput ::
  "string \<Rightarrow> string \<Rightarrow> string \<Rightarrow> WebSocketMessage \<Rightarrow> Cell NotebookState \<Rightarrow> Cell NotebookState" where
  "updateCellOutput new_id notebookId cellId output s =
     s\<lparr>notebooks := map (\<lambda>nb. if nb_id nb = notebookId
           then nb\<lparr>cells := map (\<lambda>cell. if cell_id cell = cellId
                     then cell\<lparr>cell_output := [\<lparr>out_id = new_id, out_type = msg_type output,
                            out_content = msg_content output,
                            out_timestamp = msg_timestamp output\<rparr>]\<rparr>
                     else cell)
                   (cells nb)\<rparr>
           else nb)
         (notebooks s)\<rparr>"

definition getActiveNotebook :: "Cell NotebookState \<Rightarrow> Cell Notebook option" where
  "getActiveNotebook s = find (\<lambda>nb. Some (nb_id nb) = activeNotebookId s) (notebooks s)"

definition getActiveCell :: "Cell NotebookState \<Rightarrow> Cell option" where
  "getActiveCell s =
     (case getActiveNotebook s of
        None \<Rightarrow> None
      | Some activeNotebook \<Rightarrow>
          if \<not> truthy (activeCellId s) then None
          else find (\<lambda>cell. Some (cell_id cell) = activeCellId s) (cells activeNotebook))"

definition getNotebookById :: "string \<Rightarrow> Cell NotebookState \<Rightarrow> Cell Notebook option" where
  "getNotebookById i s = find (\<lambda>nb. nb_id nb = i) (notebooks s)"

definition getCellById :: "string \<Rightarrow> string \<Rightarrow> Cell NotebookState \<Rightarrow> Cell option" where
  "getCellById notebookId cellId s =
     (case getNotebookById notebookId s of
        None \<Rightarrow> None
      | Some notebook \<Rightarrow> find (\<lambda>cell. cell_id cell = cellId) (cells notebook))"

section \<open>Callers in the components\<close>

text \<open>
  \<^verbatim>\<open>NotebookSidebar.handleCreateNotebook\<close>: the component state is the pair of
  \<^verbatim>\<open>isCreating\<close> and \<^verbatim>\<open>newNotebookName\<close>.
\<close>

record SidebarState =
  isCreating :: bool
  newNotebookName :: js_string

definition handleCreateNotebook ::
  "string \<Rightarrow> string \<Rightarrow> int \<Rightarrow> int \<Rightarrow> SidebarState \<times> Cell NotebookState
     \<Rightarrow> SidebarState \<times> Cell NotebookState" where
  "handleCreateNotebook new_nb_id new_cell_id date1 date2 st =
     (if trim (newNotebookName (fst st)) \<noteq> []
      then (\<lparr>isCreating = False, newNotebookName = []\<rparr>,
            createNotebook new_nb_id new_cell_id date1 date2 (trim (newNotebookName (fst st))) (snd st))
      else st)"

text \<open>\<^verbatim>\<open>Array.prototype.findIndex\<close>: \<open>-1\<close> when no element satisfies the predicate.\<close>

fun findIndex :: "('a \<Rightarrow> bool) \<Rightarrow> 'a list \<Rightarrow> int" where
  "findIndex P [] = - 1"
| "findIndex P (x # xs) =
     (if P x then 0 else (let r = findIndex P xs in if r = - 1 then - 1 else r + 1))"

text \<open>
  \<^verbatim>\<open>NotebookArea.handleDragEnd\<close>: \<open>notebook\<close> is the component's prop, \<open>active_id\<close> the
  dragged cell, \<open>over\<close> the drop target (\<open>None\<close> for \<^verbatim>\<open>null\<close>).
\<close>

definition handleDragEnd ::
  "int \<Rightarrow> Cell Notebook \<Rightarrow> string \<Rightarrow> string option \<Rightarrow> Cell NotebookState
     \<Rightarrow> Cell option NotebookState" where
  "handleDragEnd date notebook active_id over s =
     (case over of
        None \<Rightarrow> slots_of_state s
      | Some over_id \<Rightarrow>
          if active_id \<noteq> over_id
          then (let oldIndex = findIndex (\<lambda>cell. cell_id cell = active_id) (cells notebook);
                    newIndex = findIndex (\<lambda>cell. cell_id cell = over_id) (cells notebook)
                in if oldIndex \<noteq> - 1 \<and> newIndex \<noteq> - 1
                   then reorderCells date (nb_id notebook) oldIndex newIndex s
                   else slots_of_state s)
          else slots_of_state s)"

text \<open>
  The requests of \<^verbatim>\<open>types.ts\<close> that \<^verbatim>\<open>handleRunCell\<close> passes to \<^verbatim>\<open>apiService\<close>.
\<close>

record UpdateCellRequest =
  upd_cellId :: string
  upd_content :: js_string
  upd_notebookId :: string

record ExecuteCellRequest =
  exe_cellId :: string
  exe_code :: js_string
  exe_notebookId :: string

text \<open>
  What \<^verbatim>\<open>handleRunCell\<close> does to the world outside itself, one constructor for each
  call it makes: the store action \<^verbatim>\<open>updateCell(notebookId, cellId, updates)\<close>, the two
  calls of \<^verbatim>\<open>apiService\<close>, the call of \<^verbatim>\<open>simulateCellExecution(cellId, code, ...)\<close>,
  which sets timers, and \<^verbatim>\<open>console.error\<close>.
\<close>

datatype effect =
    StoreUpdateCell string string CellPartial
  | ApiUpdateCell UpdateCellRequest
  | ApiExecuteCell ExecuteCellRequest
  | SimulateCellExecution string js_string
  | ConsoleError

text \<open>
  The store after one effect: only the store action changes it; \<open>date\<close> is its
  \<^verbatim>\<open>new Date()\<close>. The store after the effects of a segment, in program order.
\<close>

fun store_after :: "int \<Rightarrow> effect \<Rightarrow> Cell NotebookState \<Rightarrow> Cell NotebookState" where
  "store_after date (StoreUpdateCell notebookId cellId updates) s =
     updateCell date notebookId cellId updates s"
| "store_after date (ApiUpdateCell request) s = s"
| "store_after date (ApiExecuteCell request) s = s"
| "store_after date (SimulateCellExecution cellId code) s = s"
| "store_after date ConsoleError s = s"

definition store_after_all :: "int \<Rightarrow> effect list \<Rightarrow> Cell NotebookState \<Rightarrow> Cell NotebookState" where
  "store_after_all date effects s = foldl (\<lambda>st e. store_after date e st) s effects"

text \<open>
  \<^verbatim>\<open>Cell.handleRunCell\<close> is an \<^verbatim>\<open>async\<close> function: it runs to its first \<^verbatim>\<open>await\<close>, and
  is resumed when the awaited call of \<^verbatim>\<open>apiService\<close> settles. Between the two, other
  handlers may change the store, so each segment takes the store as it is then. \<open>cell\<close>
  and \<open>notebookId\<close> are the props and \<open>localContent\<close> the component state that the
  closure holds; a suspended handler also holds its \<^verbatim>\<open>currentContent\<close>. Each segment
  gives the phase it ends in, its effects in program order, and the store after them.
\<close>

datatype api_outcome = Resolved | Rejected

datatype run_phase = AwaitUpdateCell js_string | AwaitExecuteCell js_string | Returned


text \<open>
  The \<^verbatim>\<open>try\<close> block from one \<^verbatim>\<open>await\<close> on: \<open>Inl ()\<close> is the exception that a rejected
  promise throws at the \<^verbatim>\<open>await\<close>; otherwise the phase the block reaches and its
  effects. The new execution count is \<^verbatim>\<open>(cell.executionCount || 0) + 1\<close>, of the \<open>cell\<close>
  that the closure holds.
\<close>

definition run_try_block ::
  "string \<Rightarrow> Cell \<Rightarrow> run_phase \<Rightarrow> api_outcome \<Rightarrow> unit + run_phase \<times> effect list" where
  "run_try_block notebookId cell phase outcome =
     (case outcome of
        Rejected \<Rightarrow> Inl ()
      | Resolved \<Rightarrow>
          (case phase of
             AwaitUpdateCell currentContent \<Rightarrow>
               Inr (AwaitExecuteCell currentContent,
                 [ApiExecuteCell \<lparr>exe_cellId = cell_id cell, exe_code = currentContent,
                    exe_notebookId = notebookId\<rparr>])
           | AwaitExecuteCell currentContent \<Rightarrow>
               Inr (Returned,
                 [SimulateCellExecution (cell_id cell) currentContent,
                  StoreUpdateCell notebookId (cell_id cell)
                    (no_updates\<lparr>p_status := Some Completed,
                       p_executionCount :=
                         Some (Some (js_add (or_zero (executionCount cell)) 1))\<rparr>)])
           | Returned \<Rightarrow> Inr (Returned, [])))"

text \<open>
  The \<^verbatim>\<open>catch\<close> block logs and writes the error status. The result is again a sum,
  \<open>Inl\<close> for an exception that leaves \<^verbatim>\<open>handleRunCell\<close>. A handler that has returned is
  not resumed.
\<close>

definition handleRunCell_resume ::
  "int \<Rightarrow> string \<Rightarrow> Cell \<Rightarrow> run_phase \<Rightarrow> api_outcome \<Rightarrow> Cell NotebookState
     \<Rightarrow> unit + run_phase \<times> effect list \<times> Cell NotebookState" where
  "handleRunCell_resume date notebookId cell phase outcome s =
     (if phase = Returned then Inr (Returned, [], s)
      else (case run_try_block notebookId cell phase outcome of
              Inl _ \<Rightarrow>
                (let effects = [ConsoleError,
                       StoreUpdateCell notebookId (cell_id cell) (no_updates\<lparr>p_status := Some Error\<rparr>)]
                 in Inr (Returned, effects, store_after_all date effects s))
            | Inr (phase', effects) \<Rightarrow> Inr (phase', effects, store_after_all date effects s)))"


text \<open>Decimal digits of a number, for the template literal with \<^verbatim>\<open>code.length\<close>.\<close>

fun show_nat :: "nat \<Rightarrow> js_string" where
  "show_nat n = (if n < 10 then [of_nat (48 + n)]
                 else show_nat (n div 10) @ [of_nat (48 + n mod 10)])"

text \<open>
  \<^verbatim>\<open>simulateCellExecution\<close>: the two messages its timers pass to \<^verbatim>\<open>onOutput\<close>, with
  \<^verbatim>\<open>Date.now()\<close> at each of the two moments.
\<close>

definition simulateCellExecution :: "string \<Rightarrow> js_string \<Rightarrow> int \<Rightarrow> int \<Rightarrow> WebSocketMessage list" where
  "simulateCellExecution cellId code now1 now2 =
     [\<lparr>msg_type = Stream, msg_content = ascii ''Executing: '' @ code @ [0x000A],
       msg_cellId = cellId, msg_timestamp = now1\<rparr>,
      \<lparr>msg_type = ExecuteResult,
       msg_content = ascii ''Output: '' @ show_nat (length code) @ ascii '' characters processed'' @ [0x000A],
       msg_cellId = cellId, msg_timestamp = now2\<rparr>]"

section \<open>Notions used in the statements\<close>

text \<open>The cell in slot \<open>j\<close> of the notebook in slot \<open>i\<close>.\<close>

definition cell_at :: "'a NotebookState \<Rightarrow> nat \<Rightarrow> nat \<Rightarrow> 'a" where
  "cell_at s i j = cells (notebooks s ! i) ! j"

text \<open>Slot \<open>(i, j)\<close> exists and holds a cell that the pair of IDs names.\<close>

definition names_slot :: "string \<Rightarrow> string \<Rightarrow> Cell NotebookState \<Rightarrow> nat \<Rightarrow> nat \<Rightarrow> bool" where
  "names_slot notebookId cellId s i j =
     (i < length (notebooks s) \<and> nb_id (notebooks s ! i) = notebookId \<and>
      j < length (cells (notebooks s ! i)) \<and> cell_id (cell_at s i j) = cellId)"

definition known_notebook :: "string \<Rightarrow> Cell NotebookState \<Rightarrow> bool" where
  "known_notebook notebookId s = (\<exists>nb \<in> set (notebooks s). nb_id nb = notebookId)"

definition known_cell :: "string \<Rightarrow> string \<Rightarrow> Cell NotebookState \<Rightarrow> bool" where
  "known_cell notebookId cellId s =
     (\<exists>nb \<in> set (notebooks s). nb_id nb = notebookId \<and> (\<exists>c \<in> set (cells nb). cell_id c = cellId))"

text \<open>The \<^verbatim>\<open>CellOutput\<close> that \<^verbatim>\<open>updateCellOutput\<close> builds from a message.\<close>

definition output_of_event :: "string \<Rightarrow> WebSocketMessage \<Rightarrow> CellOutput" where
  "output_of_event new_id ev = \<lparr>out_id = new_id, out_type = msg_type ev,
     out_content = msg_content ev, out_timestamp = msg_timestamp ev\<rparr>"

text \<open>The invariant of the data model: \<^verbatim>\<open>activeNotebookId\<close> is unset or names a notebook.\<close>

definition active_notebook_ok :: "Cell NotebookState \<Rightarrow> bool" where
  "active_notebook_ok s =
     (case activeNotebookId s of None \<Rightarrow> True | Some i \<Rightarrow> known_notebook i s)"

text \<open>
  The move as the specification words it: remove the element at \<open>f\<close>, then insert it at
  \<open>t\<close>, counted in the sequence after the removal.
\<close>

definition spec_reorder :: "nat \<Rightarrow> nat \<Rightarrow> 'a list \<Rightarrow> 'a list" where
  "spec_reorder f t xs =
     (let removed = xs ! f; rest = take f xs @ drop (Suc f) xs
      in take t rest @ [removed] @ drop t rest)"

section \<open>Example stores\<close>

definition cellA :: Cell where
  "cellA = \<lparr>cell_id = ''a'', cell_type = Code, cell_content = ascii ''x = 1'', cell_output = [],
     cell_status = Idle, executionCount = None, metadata = None\<rparr>"

definition cellB :: Cell where
  "cellB = \<lparr>cell_id = ''b'', cell_type = Code, cell_content = ascii ''y = 2'',
     cell_output = [\<lparr>out_id = ''o1'', out_type = Stream, out_content = ascii ''one'', out_timestamp = 1\<rparr>,
                    \<lparr>out_id = ''o2'', out_type = ExecuteResult, out_content = ascii ''two'', out_timestamp = 2\<rparr>],
     cell_status = Completed, executionCount = Some 3, metadata = None\<rparr>"

definition cellC :: Cell where
  "cellC = \<lparr>cell_id = ''c'', cell_type = Markdown, cell_content = ascii ''notes'', cell_output = [],
     cell_status = Idle, executionCount = None, metadata = None\<rparr>"

definition cellD :: Cell where
  "cellD = \<lparr>cell_id = ''d'', cell_type = Code, cell_content = [], cell_output = [],
     cell_status = Idle, executionCount = None, metadata = None\<rparr>"

definition cellE :: Cell where
  "cellE = \<lparr>cell_id = ''e'', cell_type = Code, cell_content = ascii ''z'', cell_output = [],
     cell_status = Idle, executionCount = None, metadata = None\<rparr>"

definition notebook1 :: "Cell Notebook" where
  "notebook1 = \<lparr>nb_id = ''n1'', nb_name = ascii ''First'', cells = [cellA, cellB, cellC, cellD],
     createdAt = 10, updatedAt = 20, kernelId = None, kernelStatus = KernelIdle\<rparr>"

definition notebook2 :: "Cell Notebook" where
  "notebook2 = \<lparr>nb_id = ''n2'', nb_name = ascii ''Second'', cells = [cellE],
     createdAt = 30, updatedAt = 40, kernelId = None, kernelStatus = KernelIdle\<rparr>"

definition store1 :: "Cell NotebookState" where
  "store1 = \<lparr>notebooks = [notebook1, notebook2], activeNotebookId = Some ''n1'',
     activeCellId = Some ''b'', webSocketConnections = [], isLoading = False, error = None\<rparr>"

definition event1 :: WebSocketMessage where
  "event1 = \<lparr>msg_type = Stream, msg_content = ascii ''hello'', msg_cellId = ''b'', msg_timestamp = 99\<rparr>"







section \<open>Output reconciliation\<close>

lemmas example_defs = store1_def notebook1_def notebook2_def cellA_def cellB_def cellC_def
  cellD_def cellE_def event1_def

lemma map_if_id_unknown:
  assumes "\<forall>x \<in> set xs. \<not> P x"
  shows "map (\<lambda>x. if P x then f x else x) xs = xs"
  using assms by (intro map_idI) auto

lemma updateCellOutput_unknown:
  assumes "\<not> known_cell notebookId cellId s"
  shows "updateCellOutput new_id notebookId cellId ev s = s"
proof -
  have "(if nb_id nb = notebookId
           then nb\<lparr>cells := map (\<lambda>cell. if cell_id cell = cellId then f cell else cell) (cells nb)\<rparr>
           else nb) = nb" if "nb \<in> set (notebooks s)" for nb f
  proof (cases "nb_id nb = notebookId")
    case True
    with that assms have "\<forall>c \<in> set (cells nb). \<not> cell_id c = cellId"
      by (auto simp: known_cell_def)
    then show ?thesis by (simp add: map_if_id_unknown)
  qed simp
  then have "map (\<lambda>nb. if nb_id nb = notebookId
           then nb\<lparr>cells := map (\<lambda>cell. if cell_id cell = cellId then f cell else cell) (cells nb)\<rparr>
           else nb) (notebooks s) = notebooks s" for f
    by (intro map_idI) 
  then show ?thesis by (simp add: updateCellOutput_def)
qed

lemma updateCellOutput_at:
  assumes "names_slot notebookId cellId s i j"
  shows "cell_at (updateCellOutput new_id notebookId cellId ev s) i j =
     (cell_at s i j)\<lparr>cell_output := [output_of_event new_id ev]\<rparr>"
  using assms by (simp add: updateCellOutput_def output_of_event_def names_slot_def cell_at_def)

lemma getCellById_unknown:
  assumes "\<not> known_cell notebookId cellId s"
  shows "getCellById notebookId cellId s = None"
proof (cases "getNotebookById notebookId s")
  case None
  then show ?thesis by (simp add: getCellById_def)
next
  case (Some nb)
  then have "nb \<in> set (notebooks s)" "nb_id nb = notebookId"
    by (auto simp: getNotebookById_def find_Some_iff)
  with assms have "\<forall>c \<in> set (cells nb). cell_id c \<noteq> cellId"
    by (auto simp: known_cell_def)
  then have "find (\<lambda>cell. cell_id cell = cellId) (cells nb) = None"
    by (simp add: find_None_iff)
  with Some show ?thesis by (simp add: getCellById_def)
qed

text \<open>
  Claim C2. \<^verbatim>\<open>updateCellOutput(notebookId, cellId, event)\<close>: every cell that the two IDs
  name gets the one-element output made of the arriving event, whatever its output was,
  and keeps its other fields. When no cell is named by the two IDs (the notebook or the
  cell is unknown, for instance deleted), the store is returned as it was, so the cell is
  not back: \<^verbatim>\<open>getCellById\<close> still answers \<^verbatim>\<open>null\<close>. The function has no error result.
\<close>

theorem updateCellOutput_replaces_or_drops:
  "(\<forall>i j. names_slot notebookId cellId s i j \<longrightarrow>
       cell_at (updateCellOutput new_id notebookId cellId ev s) i j =
         (cell_at s i j)\<lparr>cell_output := [output_of_event new_id ev]\<rparr>)
   \<and> (\<not> known_cell notebookId cellId s \<longrightarrow>
       updateCellOutput new_id notebookId cellId ev s = s
       \<and> getCellById notebookId cellId (updateCellOutput new_id notebookId cellId ev s) = None)"
  using updateCellOutput_at updateCellOutput_unknown getCellById_unknown by simp

theorem updateCellOutput_replaces_or_drops_witness:
  "names_slot ''n1'' ''b'' store1 0 1
   \<and> length (cell_output (cell_at store1 0 1)) = 2
   \<and> cell_output (cell_at (updateCellOutput ''o9'' ''n1'' ''b'' event1 store1) 0 1) =
       [\<lparr>out_id = ''o9'', out_type = Stream, out_content = ascii ''hello'', out_timestamp = 99\<rparr>]
   \<and> \<not> known_cell ''n1'' ''zz'' store1
   \<and> updateCellOutput ''o9'' ''n1'' ''zz'' event1 store1 = store1"
  using updateCellOutput_replaces_or_drops [where s = store1 and notebookId = "''n1''" and cellId = "''b''"
      and new_id = "''o9''" and ev = event1]
    updateCellOutput_replaces_or_drops [where s = store1 and notebookId = "''n1''" and cellId = "''zz''"
      and new_id = "''o9''" and ev = event1]
  by (simp add: example_defs known_cell_def names_slot_def cell_at_def output_of_event_def)


section \<open>Reordering cells\<close>

lemma splice_start_valid: "0 \<le> i \<Longrightarrow> i \<le> int n \<Longrightarrow> splice_start i n = nat i"
  by (simp add: splice_start_def)

lemma reorder_array_valid:
  assumes "0 \<le> fromIndex" "fromIndex < int (length xs)" "0 \<le> toIndex" "toIndex < int (length xs)"
  shows "reorder_array fromIndex toIndex xs = map Some (spec_reorder (nat fromIndex) (nat toIndex) xs)"
proof -
  have f: "splice_start fromIndex (length xs) = nat fromIndex"
    using assms by (simp add: splice_start_valid)
  have len: "length (take (nat fromIndex) xs @ drop (Suc (nat fromIndex)) xs) = length xs - 1"
    using assms by auto
  have t: "splice_start toIndex (length xs - 1) = nat toIndex"
    using assms by (intro splice_start_valid) auto
  show ?thesis
    using assms unfolding reorder_array_def spec_reorder_def Let_def f len t
    by simp
qed

lemma mset_spec_reorder:
  assumes "f < length xs"
  shows "mset (spec_reorder f t xs) = mset xs"
proof -
  let ?rest = "take f xs @ drop (Suc f) xs"
  have "mset (spec_reorder f t xs) = mset (take t ?rest @ drop t ?rest) + {#xs ! f#}"
    unfolding spec_reorder_def Let_def by simp
  also have "\<dots> = mset ?rest + {#xs ! f#}"
    by (simp only: append_take_drop_id)
  also have "\<dots> = mset (take f xs @ xs ! f # drop (Suc f) xs)"
    by simp
  also have "\<dots> = mset xs"
    using assms by (simp only: id_take_nth_drop [symmetric])
  finally show ?thesis .
qed

lemma spec_reorder_same:
  assumes "f < length xs"
  shows "spec_reorder f f xs = xs"
proof -
  have "take f (take f xs @ drop (Suc f) xs) = take f xs"
    using assms by simp
  moreover have "drop f (take f xs @ drop (Suc f) xs) = drop (Suc f) xs"
    using assms by simp
  ultimately have "spec_reorder f f xs = take f xs @ xs ! f # drop (Suc f) xs"
    unfolding spec_reorder_def Let_def by simp
  then show ?thesis using assms by (simp only: id_take_nth_drop [symmetric])
qed

lemma reorderCells_cells_at:
  assumes "i < length (notebooks s)" "nb_id (notebooks s ! i) = notebookId"
  shows "cells (notebooks (reorderCells date notebookId fromIndex toIndex s) ! i) =
     reorder_array fromIndex toIndex (cells (notebooks s ! i))"
  using assms by (simp add: reorderCells_def)

text \<open>
  Claim C1. For a notebook that \<^verbatim>\<open>notebookId\<close> names and two indices that are both
  positions of its cell sequence, \<^verbatim>\<open>reorderCells\<close> yields the sequence in which the cell
  at \<^verbatim>\<open>fromIndex\<close> is removed and inserted again at \<^verbatim>\<open>toIndex\<close>, counted after the
  removal; every slot holds a cell, the cells are the same multiset as before, and with
  \<^verbatim>\<open>fromIndex = toIndex\<close> the sequence is unchanged.
\<close>

theorem reorderCells_relocates:
  assumes "i < length (notebooks s)" and "nb_id (notebooks s ! i) = notebookId"
    and "0 \<le> fromIndex" and "fromIndex < int (length (cells (notebooks s ! i)))"
    and "0 \<le> toIndex" and "toIndex < int (length (cells (notebooks s ! i)))"
  shows "cells (notebooks (reorderCells date notebookId fromIndex toIndex s) ! i) =
           map Some (spec_reorder (nat fromIndex) (nat toIndex) (cells (notebooks s ! i)))
         \<and> mset (cells (notebooks (reorderCells date notebookId fromIndex toIndex s) ! i)) =
             mset (map Some (cells (notebooks s ! i)))
         \<and> (fromIndex = toIndex \<longrightarrow>
              cells (notebooks (reorderCells date notebookId fromIndex toIndex s) ! i) =
                map Some (cells (notebooks s ! i)))"
proof -
  let ?xs = "cells (notebooks s ! i)"
  have eq: "cells (notebooks (reorderCells date notebookId fromIndex toIndex s) ! i) =
      map Some (spec_reorder (nat fromIndex) (nat toIndex) ?xs)"
    using assms by (simp only: reorderCells_cells_at reorder_array_valid)
  have f: "nat fromIndex < length ?xs" using assms by auto
  have m: "mset (map Some (spec_reorder (nat fromIndex) (nat toIndex) ?xs)) = mset (map Some ?xs)"
    using mset_spec_reorder [OF f] by (simp only: mset_map)
  have same: "map Some (spec_reorder (nat fromIndex) (nat toIndex) ?xs) = map Some ?xs"
    if "fromIndex = toIndex"
    using that spec_reorder_same [OF f] by simp
  show ?thesis
    unfolding eq using m same by blast
qed

theorem reorderCells_relocates_witness:
  "cells (notebooks store1 ! 0) = [cellA, cellB, cellC, cellD]
   \<and> cells (notebooks (reorderCells 50 ''n1'' 0 2 store1) ! 0) =
       [Some cellB, Some cellC, Some cellA, Some cellD]
   \<and> cells (notebooks (reorderCells 50 ''n1'' 1 1 store1) ! 0) =
       [Some cellA, Some cellB, Some cellC, Some cellD]"
  using reorderCells_relocates [where s = store1 and i = 0 and notebookId = "''n1''"
      and fromIndex = 0 and toIndex = 2 and date = 50]
    reorderCells_relocates [where s = store1 and i = 0 and notebookId = "''n1''"
      and fromIndex = 1 and toIndex = 1 and date = 50]
  by (simp add: store1_def notebook1_def spec_reorder_def)

lemma splice_start_less:
  assumes "xs \<noteq> []" "fromIndex < int (length xs)"
  shows "splice_start fromIndex (length xs) < length xs"
proof -
  have "0 < length xs" using assms by simp
  then show ?thesis using assms(2) unfolding splice_start_def by (auto simp: max_def)
qed

lemma reorder_array_any_to:
  assumes "xs \<noteq> []" "fromIndex < int (length xs)"
  shows "reorder_array fromIndex toIndex xs =
     map Some (spec_reorder (splice_start fromIndex (length xs))
                 (splice_start toIndex (length xs - 1)) xs)"
proof -
  let ?f = "splice_start fromIndex (length xs)"
  have f: "?f < length xs"
    using assms by (rule splice_start_less)
  then have len: "length (take ?f xs @ drop (Suc ?f) xs) = length xs - 1"
    by auto
  show ?thesis
    using f unfolding reorder_array_def spec_reorder_def Let_def len
    by simp
qed

lemma spec_reorder_to_end:
  assumes "f < length xs"
  shows "spec_reorder f (length xs - 1) xs = take f xs @ drop (Suc f) xs @ [xs ! f]"
proof -
  let ?rest = "take f xs @ drop (Suc f) xs"
  have len: "length xs - 1 = length ?rest" using assms by auto
  have whole: "take (length ys) ys = ys" "drop (length ys) ys = []" for ys :: "'a list"
    by simp_all
  have "spec_reorder f (length xs - 1) xs =
      take (length ?rest) ?rest @ [xs ! f] @ drop (length ?rest) ?rest"
    unfolding spec_reorder_def Let_def len ..
  also have "\<dots> = ?rest @ [xs ! f] @ []"
    by (simp only: whole)
  finally show ?thesis by simp
qed

lemma reorderCells_updatedAt_at:
  assumes "i < length (notebooks s)" "nb_id (notebooks s ! i) = notebookId"
  shows "updatedAt (notebooks (reorderCells date notebookId fromIndex toIndex s) ! i) = date"
  using assms by (simp add: reorderCells_def)

text \<open>
  Claim C6, as amended. \<^verbatim>\<open>reorderCells\<close> checks no range and has no error result. For a
  notebook that \<^verbatim>\<open>notebookId\<close> names, with at least one cell, and any \<^verbatim>\<open>fromIndex\<close> below
  the cell count, it moves one cell for every \<^verbatim>\<open>toIndex\<close>: both indices are read as
  \<^verbatim>\<open>splice\<close> reads them (a negative index counts from the end and stops at 0, an index
  beyond the end is the end), the second one in the sequence after the removal. The cells
  stay the same multiset, every slot holds a cell, and \<^verbatim>\<open>updatedAt\<close> is set. With
  \<^verbatim>\<open>fromIndex\<close> a position and \<^verbatim>\<open>toIndex\<close> at or beyond the cell count, the cell moves to
  the end.
\<close>

theorem reorderCells_unchecked:
  assumes "i < length (notebooks s)" and "nb_id (notebooks s ! i) = notebookId"
    and "cells (notebooks s ! i) \<noteq> []"
    and "fromIndex < int (length (cells (notebooks s ! i)))"
  shows "cells (notebooks (reorderCells date notebookId fromIndex toIndex s) ! i) =
           map Some (spec_reorder
             (splice_start fromIndex (length (cells (notebooks s ! i))))
             (splice_start toIndex (length (cells (notebooks s ! i)) - 1))
             (cells (notebooks s ! i)))
         \<and> mset (cells (notebooks (reorderCells date notebookId fromIndex toIndex s) ! i)) =
             mset (map Some (cells (notebooks s ! i)))
         \<and> updatedAt (notebooks (reorderCells date notebookId fromIndex toIndex s) ! i) = date
         \<and> (0 \<le> fromIndex \<and> int (length (cells (notebooks s ! i))) \<le> toIndex \<longrightarrow>
              cells (notebooks (reorderCells date notebookId fromIndex toIndex s) ! i) =
                map Some (take (nat fromIndex) (cells (notebooks s ! i)) @
                          drop (Suc (nat fromIndex)) (cells (notebooks s ! i)) @
                          [cells (notebooks s ! i) ! nat fromIndex]))"
proof -
  let ?xs = "cells (notebooks s ! i)"
  let ?f = "splice_start fromIndex (length ?xs)"
  let ?t = "splice_start toIndex (length ?xs - 1)"
  have eq: "cells (notebooks (reorderCells date notebookId fromIndex toIndex s) ! i) =
      map Some (spec_reorder ?f ?t ?xs)"
    using reorderCells_cells_at [OF assms(1,2)] reorder_array_any_to [OF assms(3,4)]
    by simp
  have f: "?f < length ?xs"
    using assms(3,4) by (rule splice_start_less)
  have m: "mset (map Some (spec_reorder ?f ?t ?xs)) = mset (map Some ?xs)"
    using mset_spec_reorder [OF f] by (simp only: mset_map)
  have u: "updatedAt (notebooks (reorderCells date notebookId fromIndex toIndex s) ! i) = date"
    using assms by (simp only: reorderCells_updatedAt_at)
  have e: "spec_reorder ?f ?t ?xs =
      take (nat fromIndex) ?xs @ drop (Suc (nat fromIndex)) ?xs @ [?xs ! nat fromIndex]"
    if "0 \<le> fromIndex" "int (length ?xs) \<le> toIndex"
  proof -
    have "?f = nat fromIndex" using that assms by (simp add: splice_start_def)
    moreover have "?t = length ?xs - 1" using that by (auto simp: splice_start_def)
    moreover have "nat fromIndex < length ?xs" using that assms by auto
    ultimately show ?thesis
      using spec_reorder_to_end [of "nat fromIndex" ?xs] by simp
  qed
  show ?thesis
    unfolding eq using m u e by simp
qed

theorem reorderCells_unchecked_witness:
  "cells (notebooks store1 ! 0) = [cellA, cellB, cellC, cellD]
   \<and> cells (notebooks (reorderCells 50 ''n1'' 0 7 store1) ! 0) =
       [Some cellB, Some cellC, Some cellD, Some cellA]
   \<and> cells (notebooks (reorderCells 50 ''n1'' (- 1) (- 9) store1) ! 0) =
       [Some cellD, Some cellA, Some cellB, Some cellC]"
  using reorderCells_unchecked [where s = store1 and i = 0 and notebookId = "''n1''"
      and fromIndex = 0 and toIndex = 7 and date = 50]
    reorderCells_unchecked [where s = store1 and i = 0 and notebookId = "''n1''"
      and fromIndex = "- 1" and toIndex = "- 9" and date = 50]
  by (simp add: store1_def notebook1_def spec_reorder_def splice_start_def)

text \<open>
  The claim C6 as it was stated fails: index 7 is outside a sequence of four cells, and
  the call returns a store in which the first cell has moved to the end.
\<close>

theorem reorderCells_out_of_range_counterexample:
  "\<not> (7 < int (length (cells (notebooks store1 ! 0))))
   \<and> cells (notebooks (reorderCells 50 ''n1'' 0 7 store1) ! 0) =
       [Some cellB, Some cellC, Some cellD, Some cellA]
   \<and> reorderCells 50 ''n1'' 0 7 store1 \<noteq> slots_of_state store1"
  by (simp add: store1_def notebook1_def reorderCells_def reorder_array_def splice_start_def
      slots_of_state_def slots_of_notebook_def cellA_def cellB_def cellC_def cellD_def)

section \<open>The active pointers\<close>

lemma find_unknown: "(\<forall>x \<in> set xs. \<not> P x) \<Longrightarrow> find P xs = None"
  by (simp add: find_None_iff)

lemma find_known: "\<exists>x \<in> set xs. P x \<Longrightarrow> \<exists>y. find P xs = Some y \<and> y \<in> set xs \<and> P y"
  by (induction xs) auto

lemma find_Some_member: "find P xs = Some y \<Longrightarrow> y \<in> set xs \<and> P y"
  by (induction xs) (auto split: if_splits)

text \<open>
  Claim C7, as amended. \<^verbatim>\<open>setActiveNotebook(id)\<close> has no error result and checks
  nothing: for every ID, known or not, it sets \<^verbatim>\<open>activeNotebookId\<close> to that ID and leaves
  every other field, \<^verbatim>\<open>activeCellId\<close> included, as it was. For an unknown ID the getters
  \<^verbatim>\<open>getActiveNotebook\<close> and \<^verbatim>\<open>getActiveCell\<close> then answer \<^verbatim>\<open>null\<close>; for a known ID
  \<^verbatim>\<open>getActiveNotebook\<close> answers the first notebook of that ID, and \<^verbatim>\<open>getActiveCell\<close>
  answers \<^verbatim>\<open>null\<close> when \<^verbatim>\<open>activeCellId\<close> names no cell of that notebook.
\<close>

theorem setActiveNotebook_sets_pointer_only:
  "activeNotebookId (setActiveNotebook i s) = Some i
   \<and> notebooks (setActiveNotebook i s) = notebooks s
   \<and> activeCellId (setActiveNotebook i s) = activeCellId s
   \<and> webSocketConnections (setActiveNotebook i s) = webSocketConnections s
   \<and> isLoading (setActiveNotebook i s) = isLoading s
   \<and> error (setActiveNotebook i s) = error s
   \<and> (\<not> known_notebook i s \<longrightarrow>
        getActiveNotebook (setActiveNotebook i s) = None
        \<and> getActiveCell (setActiveNotebook i s) = None)
   \<and> (known_notebook i s \<longrightarrow>
        (\<exists>nb. getActiveNotebook (setActiveNotebook i s) = Some nb
           \<and> getNotebookById i s = Some nb \<and> nb_id nb = i
           \<and> ((\<forall>c \<in> set (cells nb). Some (cell_id c) \<noteq> activeCellId s) \<longrightarrow>
                getActiveCell (setActiveNotebook i s) = None)))"
proof -
  have unknown: "getActiveNotebook (setActiveNotebook i s) = None" if "\<not> known_notebook i s"
    using that by (simp add: getActiveNotebook_def setActiveNotebook_def known_notebook_def find_unknown)
  have known: "\<exists>nb. getActiveNotebook (setActiveNotebook i s) = Some nb
           \<and> getNotebookById i s = Some nb \<and> nb_id nb = i
           \<and> ((\<forall>c \<in> set (cells nb). Some (cell_id c) \<noteq> activeCellId s) \<longrightarrow>
                getActiveCell (setActiveNotebook i s) = None)" if "known_notebook i s"
  proof -
    from that obtain nb where nb: "find (\<lambda>nb. nb_id nb = i) (notebooks s) = Some nb" "nb_id nb = i"
      using find_known [of "notebooks s" "\<lambda>nb. nb_id nb = i"] by (auto simp: known_notebook_def)
    then have a: "getActiveNotebook (setActiveNotebook i s) = Some nb"
      by (simp add: getActiveNotebook_def setActiveNotebook_def)
    have "getActiveCell (setActiveNotebook i s) = None"
      if "\<forall>c \<in> set (cells nb). Some (cell_id c) \<noteq> activeCellId s"
      using that a by (simp add: getActiveCell_def setActiveNotebook_def find_unknown)
    with nb a show ?thesis by (simp add: getNotebookById_def)
  qed
  show ?thesis
    using unknown known by (simp add: setActiveNotebook_def getActiveCell_def)
qed

theorem setActiveNotebook_sets_pointer_only_witness:
  "\<not> known_notebook ''ghost'' store1
   \<and> activeNotebookId (setActiveNotebook ''ghost'' store1) = Some ''ghost''
   \<and> getActiveNotebook (setActiveNotebook ''ghost'' store1) = None
   \<and> known_notebook ''n2'' store1
   \<and> getActiveNotebook (setActiveNotebook ''n2'' store1) = Some notebook2
   \<and> activeCellId (setActiveNotebook ''n2'' store1) = Some ''b''
   \<and> getActiveCell (setActiveNotebook ''n2'' store1) = None"
  using setActiveNotebook_sets_pointer_only [where i = "''ghost''" and s = store1]
    setActiveNotebook_sets_pointer_only [where i = "''n2''" and s = store1]
  by (simp add: known_notebook_def store1_def notebook1_def notebook2_def getNotebookById_def
      cellE_def)

text \<open>
  The claim C7 as it was stated fails: for an ID that no notebook has, the call neither
  fails nor leaves the store as it was, and the pointer then names no notebook; for the
  ID of the second notebook, the active cell ID stays that of a cell of the first one.
\<close>

theorem setActiveNotebook_unknown_counterexample:
  "\<not> known_notebook ''ghost'' store1
   \<and> active_notebook_ok store1
   \<and> setActiveNotebook ''ghost'' store1 \<noteq> store1
   \<and> \<not> active_notebook_ok (setActiveNotebook ''ghost'' store1)
   \<and> \<not> known_cell ''n2'' ''b'' store1
   \<and> activeCellId (setActiveNotebook ''n2'' store1) = Some ''b''"
  by (simp add: known_notebook_def known_cell_def active_notebook_ok_def setActiveNotebook_def
      store1_def notebook1_def notebook2_def cellE_def)

section \<open>Deleting a notebook\<close>

lemma or_null_cases: "or_null v = None \<or> (or_null v = v \<and> truthy v)"
  by (auto simp: or_null_def truthy_def split: option.splits)

lemma first_notebook_id_member:
  "first_notebook_id ns = Some i \<Longrightarrow> \<exists>nb \<in> set ns. nb_id nb = i"
  by (auto simp: first_notebook_id_def split: list.splits)

lemma deleteNotebook_notebooks:
  "notebooks (deleteNotebook i s) = filter (\<lambda>nb. nb_id nb \<noteq> i) (notebooks s)"
  by (simp add: deleteNotebook_def Let_def)

lemma deleteNotebook_activeNotebookId:
  "activeNotebookId (deleteNotebook i s) =
     (if activeNotebookId s = Some i
      then or_null (first_notebook_id (filter (\<lambda>nb. nb_id nb \<noteq> i) (notebooks s)))
      else activeNotebookId s)"
  by (simp add: deleteNotebook_def Let_def)

lemma deleteNotebook_activeCellId:
  "activeCellId (deleteNotebook i s) =
     (if truthy (activeNotebookId (deleteNotebook i s))
      then or_null (case getActiveNotebook (deleteNotebook i s) of
                      None \<Rightarrow> None | Some nb \<Rightarrow> first_cell_id (cells nb))
      else None)"
  by (simp add: deleteNotebook_def Let_def getActiveNotebook_def)

lemma deleteNotebook_keeps_invariant:
  assumes "active_notebook_ok s \<or> activeNotebookId s = Some i"
  shows "active_notebook_ok (deleteNotebook i s)"
proof (cases "activeNotebookId s = Some i")
  case True
  let ?rest = "filter (\<lambda>nb. nb_id nb \<noteq> i) (notebooks s)"
  have a: "activeNotebookId (deleteNotebook i s) = or_null (first_notebook_id ?rest)"
    using True by (simp add: deleteNotebook_activeNotebookId)
  show ?thesis
  proof (cases "or_null (first_notebook_id ?rest)")
    case None
    with a show ?thesis by (simp add: active_notebook_ok_def)
  next
    case (Some k)
    then have "first_notebook_id ?rest = Some k"
      using or_null_cases [of "first_notebook_id ?rest"] by auto
    then have "\<exists>nb \<in> set ?rest. nb_id nb = k"
      by (rule first_notebook_id_member)
    with a Some show ?thesis
      by (simp add: active_notebook_ok_def known_notebook_def deleteNotebook_notebooks)
  qed
next
  case False
  with assms have ok: "active_notebook_ok s" by simp
  have a: "activeNotebookId (deleteNotebook i s) = activeNotebookId s"
    using False by (simp add: deleteNotebook_activeNotebookId)
  show ?thesis
  proof (cases "activeNotebookId s")
    case None
    with a show ?thesis by (simp add: active_notebook_ok_def)
  next
    case (Some k)
    with False have "k \<noteq> i" by simp
    moreover from ok Some have "\<exists>nb \<in> set (notebooks s). nb_id nb = k"
      by (simp add: active_notebook_ok_def known_notebook_def)
    ultimately have "\<exists>nb \<in> set (filter (\<lambda>nb. nb_id nb \<noteq> i) (notebooks s)). nb_id nb = k"
      by auto
    with a Some show ?thesis
      by (simp add: active_notebook_ok_def known_notebook_def deleteNotebook_notebooks)
  qed
qed

lemma deleteNotebook_retargets:
  assumes "activeNotebookId s = Some i"
  shows "activeNotebookId (deleteNotebook i s) =
     (case filter (\<lambda>nb. nb_id nb \<noteq> i) (notebooks s) of
        [] \<Rightarrow> None
      | nb # _ \<Rightarrow> if nb_id nb = [] then None else Some (nb_id nb))"
  using assms
  by (simp add: deleteNotebook_activeNotebookId or_null_def first_notebook_id_def split: list.splits)

lemma deleteNotebook_active_cell:
  "activeCellId (deleteNotebook i s) = None
   \<or> (\<exists>nb c cs. getActiveNotebook (deleteNotebook i s) = Some nb \<and> cells nb = c # cs
         \<and> activeCellId (deleteNotebook i s) = Some (cell_id c))"
proof (cases "activeCellId (deleteNotebook i s)")
  case None
  then show ?thesis by simp
next
  case (Some k)
  let ?v = "case getActiveNotebook (deleteNotebook i s) of
              None \<Rightarrow> None | Some nb \<Rightarrow> first_cell_id (cells nb)"
  from Some have "or_null ?v = Some k"
    by (simp add: deleteNotebook_activeCellId split: if_splits)
  then have "?v = Some k"
    using or_null_cases [of ?v] by auto
  then obtain nb where "getActiveNotebook (deleteNotebook i s) = Some nb"
      "first_cell_id (cells nb) = Some k"
    by (auto split: option.splits)
  with Some show ?thesis
    by (auto simp: first_cell_id_def split: list.splits)
qed

lemma deleteNotebook_only_notebook:
  assumes "active_notebook_ok s \<or> activeNotebookId s = Some i" "notebooks s = [nb]" "nb_id nb = i"
  shows "activeNotebookId (deleteNotebook i s) = None \<and> getActiveCell (deleteNotebook i s) = None"
proof -
  have n: "notebooks (deleteNotebook i s) = []"
    using assms by (simp add: deleteNotebook_notebooks)
  have "active_notebook_ok (deleteNotebook i s)"
    using assms(1) by (rule deleteNotebook_keeps_invariant)
  with n have "activeNotebookId (deleteNotebook i s) = None"
    by (simp add: active_notebook_ok_def known_notebook_def split: option.splits)
  moreover from n have "getActiveCell (deleteNotebook i s) = None"
    by (simp add: getActiveCell_def getActiveNotebook_def)
  ultimately show ?thesis by simp
qed

text \<open>
  Claim C4, as amended. Take a store whose \<^verbatim>\<open>activeNotebookId\<close> is unset or names one of
  its notebooks, or whose active notebook is the one that is deleted. After
  \<^verbatim>\<open>deleteNotebook(id)\<close> the pointer is again unset or names a notebook of the store. When
  the deleted notebook was the active one, the pointer is unset if no notebook remains,
  and otherwise is the ID of the first remaining notebook (unset when that ID is the empty
  string). \<^verbatim>\<open>activeCellId\<close> is unset or is the ID of the first cell of the notebook that
  \<^verbatim>\<open>getActiveNotebook\<close> then returns. Deleting the only notebook leaves
  \<^verbatim>\<open>activeNotebookId\<close> unset and \<^verbatim>\<open>getActiveCell\<close> answering \<^verbatim>\<open>null\<close>.
\<close>

theorem deleteNotebook_active_pointer:
  assumes "active_notebook_ok s \<or> activeNotebookId s = Some i"
  shows "active_notebook_ok (deleteNotebook i s)
    \<and> (activeNotebookId s = Some i \<longrightarrow>
         activeNotebookId (deleteNotebook i s) =
           (case filter (\<lambda>nb. nb_id nb \<noteq> i) (notebooks s) of
              [] \<Rightarrow> None
            | nb # _ \<Rightarrow> if nb_id nb = [] then None else Some (nb_id nb)))
    \<and> (activeCellId (deleteNotebook i s) = None
        \<or> (\<exists>nb c cs. getActiveNotebook (deleteNotebook i s) = Some nb \<and> cells nb = c # cs
              \<and> activeCellId (deleteNotebook i s) = Some (cell_id c)))
    \<and> (\<forall>nb. notebooks s = [nb] \<and> nb_id nb = i \<longrightarrow>
         activeNotebookId (deleteNotebook i s) = None \<and> getActiveCell (deleteNotebook i s) = None)"
proof (intro conjI)
  show "active_notebook_ok (deleteNotebook i s)"
    using assms by (rule deleteNotebook_keeps_invariant)
  show "activeNotebookId s = Some i \<longrightarrow>
      activeNotebookId (deleteNotebook i s) =
        (case filter (\<lambda>nb. nb_id nb \<noteq> i) (notebooks s) of
           [] \<Rightarrow> None
         | nb # _ \<Rightarrow> if nb_id nb = [] then None else Some (nb_id nb))"
    by (intro impI) (rule deleteNotebook_retargets)
  show "activeCellId (deleteNotebook i s) = None
      \<or> (\<exists>nb c cs. getActiveNotebook (deleteNotebook i s) = Some nb \<and> cells nb = c # cs
            \<and> activeCellId (deleteNotebook i s) = Some (cell_id c))"
    by (rule deleteNotebook_active_cell)
  show "\<forall>nb. notebooks s = [nb] \<and> nb_id nb = i \<longrightarrow>
      activeNotebookId (deleteNotebook i s) = None \<and> getActiveCell (deleteNotebook i s) = None"
  proof (intro allI impI)
    fix nb
    assume "notebooks s = [nb] \<and> nb_id nb = i"
    then show "activeNotebookId (deleteNotebook i s) = None \<and> getActiveCell (deleteNotebook i s) = None"
      using deleteNotebook_only_notebook [OF assms, of nb] by simp
  qed
qed

theorem deleteNotebook_active_pointer_witness:
  "active_notebook_ok store1 \<and> activeNotebookId store1 = Some ''n1''
   \<and> active_notebook_ok (deleteNotebook ''n1'' store1)
   \<and> activeNotebookId (deleteNotebook ''n1'' store1) = Some ''n2''
   \<and> activeCellId (deleteNotebook ''n1'' store1) = Some ''e''
   \<and> activeNotebookId (deleteNotebook ''n2'' (deleteNotebook ''n1'' store1)) = None
   \<and> getActiveCell (deleteNotebook ''n2'' (deleteNotebook ''n1'' store1)) = None"
  using deleteNotebook_active_pointer [where s = store1 and i = "''n1''"]
    deleteNotebook_active_pointer [where s = "deleteNotebook ''n1'' store1" and i = "''n2''"]
  by (simp add: active_notebook_ok_def known_notebook_def store1_def notebook1_def notebook2_def
      deleteNotebook_def Let_def or_null_def first_notebook_id_def first_cell_id_def truthy_def
      cellE_def getActiveCell_def getActiveNotebook_def)

text \<open>
  The claim C4 as it was stated fails for a store whose pointer already names no
  notebook, which \<^verbatim>\<open>setActiveNotebook\<close> produces: deleting another notebook leaves the
  pointer as it is.
\<close>

theorem deleteNotebook_dangling_counterexample:
  "activeNotebookId (deleteNotebook ''n2'' (setActiveNotebook ''ghost'' store1)) = Some ''ghost''
   \<and> \<not> known_notebook ''ghost'' (deleteNotebook ''n2'' (setActiveNotebook ''ghost'' store1))
   \<and> \<not> active_notebook_ok (deleteNotebook ''n2'' (setActiveNotebook ''ghost'' store1))"
  by (simp add: active_notebook_ok_def known_notebook_def store1_def notebook1_def notebook2_def
      deleteNotebook_def setActiveNotebook_def Let_def)

text \<open>
  Claim C10 describes \<^verbatim>\<open>deleteNotebook\<close> as leaving \<^verbatim>\<open>activeCellId\<close> alone when the ID is
  unknown or is not the active notebook. The code computes \<^verbatim>\<open>activeCellId\<close> anew on every
  call, as the first cell of the active notebook: in \<open>store1\<close> the active cell is \<open>b\<close>, the
  second cell of the active notebook \<open>n1\<close>, and it becomes \<open>a\<close> both when an unknown ID and
  when the other notebook \<open>n2\<close> is deleted. The notebooks and \<^verbatim>\<open>activeNotebookId\<close> are as
  the claim says.
\<close>

theorem deleteNotebook_resets_active_cell:
  "\<not> known_notebook ''zz'' store1
   \<and> activeCellId store1 = Some ''b''
   \<and> deleteNotebook ''zz'' store1 = store1\<lparr>activeCellId := Some ''a''\<rparr>
   \<and> deleteNotebook ''zz'' store1 \<noteq> store1
   \<and> activeNotebookId store1 = Some ''n1''
   \<and> deleteNotebook ''n2'' store1 = store1\<lparr>notebooks := [notebook1], activeCellId := Some ''a''\<rparr>"
  by (simp add: known_notebook_def store1_def notebook1_def notebook2_def
      deleteNotebook_def Let_def or_null_def first_cell_id_def truthy_def cellA_def)

section \<open>Deleting a cell\<close>

lemma filter_removes_one:
  assumes "distinct (map f xs)" "j < length xs" "f (xs ! j) = k"
  shows "filter (\<lambda>x. f x \<noteq> k) xs = take j xs @ drop (Suc j) xs"
  using assms
proof (induction xs arbitrary: j)
  case Nil
  then show ?case by simp
next
  case (Cons x xs)
  show ?case
  proof (cases j)
    case 0
    with Cons.prems have "f x = k" "f x \<notin> f ` set xs"
      by auto
    then have "\<forall>y \<in> set xs. f y \<noteq> k"
      by (metis imageI)
    then have "filter (\<lambda>x. f x \<noteq> k) xs = xs"
      by (simp add: filter_id_conv)
    with 0 \<open>f x = k\<close> show ?thesis by simp
  next
    case (Suc j')
    with Cons.prems have "xs ! j' \<in> set xs" "f (xs ! j') = k" "f x \<notin> f ` set xs"
      by auto
    then have "f x \<noteq> k" by auto
    moreover have "filter (\<lambda>x. f x \<noteq> k) xs = take j' xs @ drop (Suc j') xs"
      using Cons.prems Suc by (intro Cons.IH) auto
    ultimately show ?thesis using Suc by simp
  qed
qed

lemma deleteCell_unknown_notebook:
  assumes "\<not> known_notebook notebookId s"
  shows "deleteCell date notebookId cellId s = s"
proof -
  have "map (\<lambda>nb. if nb_id nb = notebookId then g nb else nb) (notebooks s) = notebooks s" for g
    using assms by (intro map_idI) (auto simp: known_notebook_def)
  then show ?thesis by (simp add: deleteCell_def)
qed

lemma deleteCell_at:
  assumes "i < length (notebooks s)" "nb_id (notebooks s ! i) = notebookId"
  shows "cells (notebooks (deleteCell date notebookId cellId s) ! i) =
           filter (\<lambda>c. cell_id c \<noteq> cellId) (cells (notebooks s ! i))"
    and "updatedAt (notebooks (deleteCell date notebookId cellId s) ! i) = date"
  using assms by (simp_all add: deleteCell_def)

lemma deleteCell_elsewhere:
  assumes "i < length (notebooks s)" "nb_id (notebooks s ! i) \<noteq> notebookId"
  shows "notebooks (deleteCell date notebookId cellId s) ! i = notebooks s ! i"
  using assms by (simp add: deleteCell_def)

lemma deleteCell_getActiveCell:
  assumes "activeNotebookId s = Some notebookId" "activeCellId s = Some cellId"
  shows "getActiveCell (deleteCell date notebookId cellId s) = None"
proof (cases "getActiveNotebook (deleteCell date notebookId cellId s)")
  case None
  then show ?thesis by (simp add: getActiveCell_def)
next
  case (Some nb')
  let ?g = "\<lambda>nb. if nb_id nb = notebookId
           then nb\<lparr>cells := filter (\<lambda>cell. cell_id cell \<noteq> cellId) (cells nb), updatedAt := date\<rparr>
           else nb"
  from Some have "find (\<lambda>nb. Some (nb_id nb) = Some notebookId) (map ?g (notebooks s)) = Some nb'"
    using assms by (simp add: getActiveNotebook_def deleteCell_def)
  then have "nb' \<in> set (map ?g (notebooks s))" "nb_id nb' = notebookId"
    using find_Some_member [of "\<lambda>nb. Some (nb_id nb) = Some notebookId" "map ?g (notebooks s)" nb']
    by auto
  then obtain nb where "nb' = ?g nb" "nb_id nb = notebookId"
    by (auto split: if_splits)
  then have "\<forall>c \<in> set (cells nb'). Some (cell_id c) \<noteq> Some cellId"
    by simp
  then have "find (\<lambda>cell. Some (cell_id cell) = Some cellId) (cells nb') = None"
    by (rule find_unknown)
  with Some assms show ?thesis
    by (simp add: getActiveCell_def deleteCell_def)
qed

text \<open>
  Claim C5, as amended. \<^verbatim>\<open>deleteCell(notebookId, cellId)\<close> changes nothing when no
  notebook has the ID. In a notebook of that ID it removes the cells of ID \<^verbatim>\<open>cellId\<close>
  and keeps the others in their order: none when the cell ID is unknown there, and
  exactly the one cell when the cell IDs of the notebook are distinct; in both cases
  \<^verbatim>\<open>updatedAt\<close> is set. Notebooks of another ID are untouched. The two active pointers are
  never changed; after the cell that \<^verbatim>\<open>activeCellId\<close> names is deleted from the active
  notebook, \<^verbatim>\<open>getActiveCell\<close> answers \<^verbatim>\<open>null\<close>.
\<close>

theorem deleteCell_removes_cell_only:
  "(\<not> known_notebook notebookId s \<longrightarrow> deleteCell date notebookId cellId s = s)
   \<and> (\<forall>i. i < length (notebooks s) \<and> nb_id (notebooks s ! i) = notebookId \<longrightarrow>
         cells (notebooks (deleteCell date notebookId cellId s) ! i) =
           filter (\<lambda>c. cell_id c \<noteq> cellId) (cells (notebooks s ! i))
         \<and> updatedAt (notebooks (deleteCell date notebookId cellId s) ! i) = date
         \<and> ((\<forall>c \<in> set (cells (notebooks s ! i)). cell_id c \<noteq> cellId) \<longrightarrow>
              cells (notebooks (deleteCell date notebookId cellId s) ! i) = cells (notebooks s ! i))
         \<and> (\<forall>j. distinct (map cell_id (cells (notebooks s ! i))) \<and>
                j < length (cells (notebooks s ! i)) \<and> cell_id (cell_at s i j) = cellId \<longrightarrow>
              cells (notebooks (deleteCell date notebookId cellId s) ! i) =
                take j (cells (notebooks s ! i)) @ drop (Suc j) (cells (notebooks s ! i))))
   \<and> (\<forall>i. i < length (notebooks s) \<and> nb_id (notebooks s ! i) \<noteq> notebookId \<longrightarrow>
         notebooks (deleteCell date notebookId cellId s) ! i = notebooks s ! i)
   \<and> length (notebooks (deleteCell date notebookId cellId s)) = length (notebooks s)
   \<and> activeNotebookId (deleteCell date notebookId cellId s) = activeNotebookId s
   \<and> activeCellId (deleteCell date notebookId cellId s) = activeCellId s
   \<and> (activeNotebookId s = Some notebookId \<and> activeCellId s = Some cellId \<longrightarrow>
        getActiveCell (deleteCell date notebookId cellId s) = None)"
proof (intro conjI)
  show "\<not> known_notebook notebookId s \<longrightarrow> deleteCell date notebookId cellId s = s"
    by (simp add: deleteCell_unknown_notebook)
  show "\<forall>i. i < length (notebooks s) \<and> nb_id (notebooks s ! i) = notebookId \<longrightarrow>
         cells (notebooks (deleteCell date notebookId cellId s) ! i) =
           filter (\<lambda>c. cell_id c \<noteq> cellId) (cells (notebooks s ! i))
         \<and> updatedAt (notebooks (deleteCell date notebookId cellId s) ! i) = date
         \<and> ((\<forall>c \<in> set (cells (notebooks s ! i)). cell_id c \<noteq> cellId) \<longrightarrow>
              cells (notebooks (deleteCell date notebookId cellId s) ! i) = cells (notebooks s ! i))
         \<and> (\<forall>j. distinct (map cell_id (cells (notebooks s ! i))) \<and>
                j < length (cells (notebooks s ! i)) \<and> cell_id (cell_at s i j) = cellId \<longrightarrow>
              cells (notebooks (deleteCell date notebookId cellId s) ! i) =
                take j (cells (notebooks s ! i)) @ drop (Suc j) (cells (notebooks s ! i)))"
  proof (intro allI impI)
    fix i
    assume a: "i < length (notebooks s) \<and> nb_id (notebooks s ! i) = notebookId"
    let ?xs = "cells (notebooks s ! i)"
    let ?ys = "cells (notebooks (deleteCell date notebookId cellId s) ! i)"
    have f: "?ys = filter (\<lambda>c. cell_id c \<noteq> cellId) ?xs"
      using a by (simp add: deleteCell_at)
    have u: "updatedAt (notebooks (deleteCell date notebookId cellId s) ! i) = date"
      using a by (simp add: deleteCell_at)
    have n: "?ys = ?xs" if "\<forall>c \<in> set ?xs. cell_id c \<noteq> cellId"
      using that f by (simp add: filter_id_conv)
    have d: "?ys = take j ?xs @ drop (Suc j) ?xs"
      if "distinct (map cell_id ?xs) \<and> j < length ?xs \<and> cell_id (cell_at s i j) = cellId" for j
      using that f filter_removes_one [of cell_id ?xs j cellId] by (simp add: cell_at_def)
    show "?ys = filter (\<lambda>c. cell_id c \<noteq> cellId) ?xs
         \<and> updatedAt (notebooks (deleteCell date notebookId cellId s) ! i) = date
         \<and> ((\<forall>c \<in> set ?xs. cell_id c \<noteq> cellId) \<longrightarrow> ?ys = ?xs)
         \<and> (\<forall>j. distinct (map cell_id ?xs) \<and> j < length ?xs \<and> cell_id (cell_at s i j) = cellId \<longrightarrow>
              ?ys = take j ?xs @ drop (Suc j) ?xs)"
      using f u n d by blast
  qed
  show "\<forall>i. i < length (notebooks s) \<and> nb_id (notebooks s ! i) \<noteq> notebookId \<longrightarrow>
         notebooks (deleteCell date notebookId cellId s) ! i = notebooks s ! i"
    by (simp add: deleteCell_elsewhere)
  show "length (notebooks (deleteCell date notebookId cellId s)) = length (notebooks s)"
    by (simp add: deleteCell_def)
  show "activeNotebookId (deleteCell date notebookId cellId s) = activeNotebookId s"
    by (simp add: deleteCell_def)
  show "activeCellId (deleteCell date notebookId cellId s) = activeCellId s"
    by (simp add: deleteCell_def)
  show "activeNotebookId s = Some notebookId \<and> activeCellId s = Some cellId \<longrightarrow>
        getActiveCell (deleteCell date notebookId cellId s) = None"
    by (simp add: deleteCell_getActiveCell)
qed

theorem deleteCell_removes_cell_only_witness:
  "\<not> known_notebook ''zz'' store1 \<and> deleteCell 50 ''zz'' ''b'' store1 = store1
   \<and> nb_id (notebooks store1 ! 0) = ''n1'' \<and> cell_id (cell_at store1 0 1) = ''b''
   \<and> distinct (map cell_id (cells (notebooks store1 ! 0)))
   \<and> cells (notebooks (deleteCell 50 ''n1'' ''b'' store1) ! 0) = [cellA, cellC, cellD]
   \<and> cells (notebooks (deleteCell 50 ''n1'' ''zz'' store1) ! 0) = [cellA, cellB, cellC, cellD]
   \<and> notebooks (deleteCell 50 ''n1'' ''b'' store1) ! 1 = notebook2
   \<and> activeNotebookId store1 = Some ''n1'' \<and> activeCellId store1 = Some ''b''
   \<and> getActiveCell (deleteCell 50 ''n1'' ''b'' store1) = None"
  using deleteCell_removes_cell_only [where s = store1 and notebookId = "''zz''" and cellId = "''b''"
      and date = 50]
    deleteCell_removes_cell_only [where s = store1 and notebookId = "''n1''" and cellId = "''b''"
      and date = 50]
    deleteCell_removes_cell_only [where s = store1 and notebookId = "''n1''" and cellId = "''zz''"
      and date = 50]
  by (simp add: known_notebook_def cell_at_def store1_def notebook1_def notebook2_def
      cellA_def cellB_def cellC_def cellD_def cellE_def)

text \<open>
  The claim C5 as it was stated fails: the active cell \<open>b\<close> is deleted from the active
  notebook and \<^verbatim>\<open>activeCellId\<close> is still \<open>b\<close> afterwards.
\<close>

theorem deleteCell_active_cell_counterexample:
  "activeNotebookId store1 = Some ''n1'' \<and> activeCellId store1 = Some ''b''
   \<and> known_cell ''n1'' ''b'' store1
   \<and> \<not> known_cell ''n1'' ''b'' (deleteCell 50 ''n1'' ''b'' store1)
   \<and> activeCellId (deleteCell 50 ''n1'' ''b'' store1) = Some ''b''"
  by (simp add: known_cell_def deleteCell_def store1_def notebook1_def notebook2_def
      cellA_def cellB_def cellC_def cellD_def cellE_def)

section \<open>The drag handler\<close>

lemma findIndex_range:
  "findIndex P xs = - 1
   \<or> (0 \<le> findIndex P xs \<and> findIndex P xs < int (length xs) \<and> P (xs ! nat (findIndex P xs)))"
proof (induction xs)
  case Nil
  then show ?case by simp
next
  case (Cons x xs)
  show ?case
  proof (cases "P x")
    case True
    then show ?thesis by simp
  next
    case False
    show ?thesis
    proof (cases "findIndex P xs = - 1")
      case True
      with False show ?thesis by simp
    next
      case neq: False
      with Cons.IH have r: "0 \<le> findIndex P xs" "findIndex P xs < int (length xs)"
          "P (xs ! nat (findIndex P xs))"
        by auto
      then have "nat (findIndex P xs + 1) = Suc (nat (findIndex P xs))"
        by simp
      with False neq r show ?thesis
        by (simp add: Let_def)
    qed
  qed
qed

text \<open>
  \<^verbatim>\<open>handleDragEnd\<close> either leaves the store as it is or calls \<^verbatim>\<open>reorderCells\<close> with two
  indices that are positions of the cell sequence of its notebook.
\<close>

lemma handleDragEnd_indices_in_range:
  "handleDragEnd date notebook active_id over s = slots_of_state s
   \<or> (\<exists>f t. 0 \<le> f \<and> f < int (length (cells notebook)) \<and> 0 \<le> t \<and> t < int (length (cells notebook))
         \<and> handleDragEnd date notebook active_id over s = reorderCells date (nb_id notebook) f t s)"
proof (cases over)
  case None
  then show ?thesis by (simp add: handleDragEnd_def)
next
  case (Some over_id)
  let ?f = "findIndex (\<lambda>cell. cell_id cell = active_id) (cells notebook)"
  let ?t = "findIndex (\<lambda>cell. cell_id cell = over_id) (cells notebook)"
  show ?thesis
  proof (cases "active_id \<noteq> over_id \<and> ?f \<noteq> - 1 \<and> ?t \<noteq> - 1")
    case True
    then have "0 \<le> ?f \<and> ?f < int (length (cells notebook))"
        "0 \<le> ?t \<and> ?t < int (length (cells notebook))"
      using findIndex_range [of "\<lambda>cell. cell_id cell = active_id" "cells notebook"]
        findIndex_range [of "\<lambda>cell. cell_id cell = over_id" "cells notebook"]
      by auto
    moreover have "handleDragEnd date notebook active_id over s =
        reorderCells date (nb_id notebook) ?f ?t s"
      using True Some by (simp add: handleDragEnd_def Let_def)
    ultimately show ?thesis by blast
  next
    case False
    then have "handleDragEnd date notebook active_id over s = slots_of_state s"
      using Some by (auto simp: handleDragEnd_def Let_def)
    then show ?thesis by simp
  qed
qed

section \<open>Text and numbers\<close>

lemma double_ulp_small: "m < mantissa_limit \<Longrightarrow> double_ulp m = 1"
  by (subst double_ulp.simps) (simp only: if_True)

lemma double_ulp_large: "\<not> m < mantissa_limit \<Longrightarrow> double_ulp m = 2 * double_ulp (m div 2)"
  by (subst double_ulp.simps) (simp only: if_False)



text \<open>Beyond the mantissa the addition rounds: \<open>2 ^ 53 + 1\<close> is \<open>2 ^ 53\<close> again.\<close>

lemma double_ulp_at_limit: "double_ulp 9007199254740993 = 2"
proof -
  have "\<not> (9007199254740993 :: nat) < mantissa_limit" by (simp add: mantissa_limit_def)
  then have "double_ulp 9007199254740993 = 2 * double_ulp (9007199254740993 div 2)"
    by (rule double_ulp_large)
  moreover have "(9007199254740993 div 2 :: nat) < mantissa_limit" by (simp add: mantissa_limit_def)
  ultimately show ?thesis by (simp only: double_ulp_small)
qed

lemma js_add_rounds_at_limit: "js_add (2 ^ 53) 1 = 2 ^ 53"
  unfolding js_add_def round_double_def Let_def by (simp add: double_ulp_at_limit)

lemma trim_examples:
  "trim (ascii ''  '') = []"
  "trim [0x00A0, 0x3000, 0x2003, 0xFEFF] = []"
  "trim (ascii '' Lab '') = ascii ''Lab''"
  "trim (ascii ''y = 2'') = ascii ''y = 2''"
  "ascii ''y = 2'' \<noteq> []"
  by (simp_all add: trim_def is_space_def ascii_def)

section \<open>Creating a notebook\<close>


lemma ascii_empty: "ascii s = [] \<longleftrightarrow> s = []"
  by (simp add: ascii_def)


text \<open>
  Claim C8, as amended. \<^verbatim>\<open>createNotebook\<close> has no error result and checks nothing: for
  every name, also one that is empty after trimming, it appends a notebook of that name.
  The check is in the caller: \<^verbatim>\<open>handleCreateNotebook\<close> of the sidebar leaves the store and
  its own state as they are when the trimmed name is empty, and raises nothing; otherwise
  it calls \<^verbatim>\<open>createNotebook\<close> with the trimmed name.
\<close>

theorem createNotebook_accepts_every_name:
  "notebooks (createNotebook new_nb_id new_cell_id created updated name s) =
     notebooks s @ [\<lparr>nb_id = new_nb_id, nb_name = name, cells = [createDefaultCell new_cell_id],
       createdAt = created, updatedAt = updated, kernelId = None, kernelStatus = KernelIdle\<rparr>]
   \<and> (trim (newNotebookName l) = [] \<longrightarrow>
        handleCreateNotebook new_nb_id new_cell_id created updated (l, s) = (l, s))
   \<and> (trim (newNotebookName l) \<noteq> [] \<longrightarrow>
        snd (handleCreateNotebook new_nb_id new_cell_id created updated (l, s)) =
          createNotebook new_nb_id new_cell_id created updated (trim (newNotebookName l)) s)"
  by (simp add: createNotebook_def handleCreateNotebook_def)

theorem createNotebook_accepts_every_name_witness:
  "trim (ascii ''  '') = []
   \<and> handleCreateNotebook ''n9'' ''c9'' 1 2
         (\<lparr>isCreating = True, newNotebookName = ascii ''  ''\<rparr>, store1) =
       (\<lparr>isCreating = True, newNotebookName = ascii ''  ''\<rparr>, store1)
   \<and> trim [0x00A0, 0x3000, 0x2003, 0xFEFF] = []
   \<and> handleCreateNotebook ''n9'' ''c9'' 1 2
         (\<lparr>isCreating = True, newNotebookName = [0x00A0, 0x3000, 0x2003, 0xFEFF]\<rparr>, store1) =
       (\<lparr>isCreating = True, newNotebookName = [0x00A0, 0x3000, 0x2003, 0xFEFF]\<rparr>, store1)
   \<and> trim (ascii '' Lab '') = ascii ''Lab''
   \<and> snd (handleCreateNotebook ''n9'' ''c9'' 1 2
         (\<lparr>isCreating = True, newNotebookName = ascii '' Lab ''\<rparr>, store1)) =
       createNotebook ''n9'' ''c9'' 1 2 (ascii ''Lab'') store1"
  using createNotebook_accepts_every_name [where l = "\<lparr>isCreating = True, newNotebookName = ascii ''  ''\<rparr>"
      and s = store1 and new_nb_id = "''n9''" and new_cell_id = "''c9''" and created = 1 and updated = 2]
    createNotebook_accepts_every_name [where
      l = "\<lparr>isCreating = True, newNotebookName = [0x00A0, 0x3000, 0x2003, 0xFEFF]\<rparr>"
      and s = store1 and new_nb_id = "''n9''" and new_cell_id = "''c9''" and created = 1 and updated = 2]
    createNotebook_accepts_every_name [where l = "\<lparr>isCreating = True, newNotebookName = ascii '' Lab ''\<rparr>"
      and s = store1 and new_nb_id = "''n9''" and new_cell_id = "''c9''" and created = 1 and updated = 2]
  by (simp add: trim_examples ascii_empty)

text \<open>
  The claim C8 as it was stated fails: a name of two spaces is empty after trimming, and
  \<^verbatim>\<open>createNotebook\<close> returns a store with a new notebook of that name.
\<close>

theorem createNotebook_blank_name_counterexample:
  "trim (ascii ''  '') = []
   \<and> createNotebook ''n9'' ''c9'' 1 2 (ascii ''  '') initial_state \<noteq> initial_state
   \<and> map nb_name (notebooks (createNotebook ''n9'' ''c9'' 1 2 (ascii ''  '') initial_state)) =
       [ascii ''  '']"
  by (simp add: trim_examples createNotebook_def initial_state_def)




section \<open>Running a cell\<close>



lemma updateCellOutput_keeps_status:
  assumes "i < length (notebooks s)" "j < length (cells (notebooks s ! i))"
  shows "cell_status (cell_at (updateCellOutput new_id notebookId cellId ev s) i j) =
           cell_status (cell_at s i j)
         \<and> executionCount (cell_at (updateCellOutput new_id notebookId cellId ev s) i j) =
             executionCount (cell_at s i j)"
  using assms by (simp add: updateCellOutput_def cell_at_def)

lemma simulateCellExecution_messages:
  "map msg_type (simulateCellExecution cellId code now1 now2) = [Stream, ExecuteResult]
   \<and> map msg_cellId (simulateCellExecution cellId code now1 now2) = [cellId, cellId]"
  by (simp add: simulateCellExecution_def)




lemma handleRunCell_resume_execute_resolved:
  "handleRunCell_resume date notebookId cell (AwaitExecuteCell content) Resolved t =
     Inr (Returned,
          [SimulateCellExecution (cell_id cell) content,
           StoreUpdateCell notebookId (cell_id cell)
             (no_updates\<lparr>p_status := Some Completed,
                p_executionCount := Some (Some (js_add (or_zero (executionCount cell)) 1))\<rparr>)],
          updateCell date notebookId (cell_id cell)
             (no_updates\<lparr>p_status := Some Completed,
                p_executionCount := Some (Some (js_add (or_zero (executionCount cell)) 1))\<rparr>) t)"
  by (simp add: handleRunCell_resume_def run_try_block_def store_after_all_def)








text \<open>
  At the end of the mantissa the count stops: a handler that holds the count \<open>2 ^ 53\<close>
  writes \<open>2 ^ 53\<close> again when its run completes.
\<close>

lemma handleRunCell_count_at_limit:
  assumes "executionCount cell = Some (2 ^ 53)"
  shows "handleRunCell_resume later notebookId cell (AwaitExecuteCell content) Resolved t =
     Inr (Returned,
          [SimulateCellExecution (cell_id cell) content,
           StoreUpdateCell notebookId (cell_id cell)
             (no_updates\<lparr>p_status := Some Completed, p_executionCount := Some (Some (2 ^ 53))\<rparr>)],
          updateCell later notebookId (cell_id cell)
             (no_updates\<lparr>p_status := Some Completed, p_executionCount := Some (Some (2 ^ 53))\<rparr>) t)"
proof -
  have "js_add (or_zero (executionCount cell)) 1 = 2 ^ 53"
    using assms js_add_rounds_at_limit by (simp add: or_zero_def)
  then show ?thesis
    using handleRunCell_resume_execute_resolved [of later notebookId cell content t] by simp
qed

end
